theory Spec2Isabelle
  imports Complex_Main
begin

section \<open>Portfolio accounting engine of the cost-basis tracker (src/App.tsx)\<close>

text \<open>
  The engine is the chain of derived values computed in \<^verbatim>\<open>App.tsx\<close>:
  \<^verbatim>\<open>transactionsWithStats\<close> (realized P/L annotator), \<^verbatim>\<open>summary\<close> (position
  aggregator), \<^verbatim>\<open>previewData\<close>, \<^verbatim>\<open>simulation\<close> and \<^verbatim>\<open>costAveragingData\<close>.

  The annotator and the aggregator are modelled as functions of \<^verbatim>\<open>currentTransactions\<close>,
  the transactions of the active symbol in timestamp order, inactive ones included.

  Numbers: a TypeScript \<^verbatim>\<open>number\<close> is an IEEE 754 binary64 value. The file has two layers.
  The exact layer models a number as a \<^typ>\<open>real\<close>; it carries the results that only
  compare values, follow the branches or state the source's own expressions, and the
  evaluations on small integers, where binary64 arithmetic is exact. The binary64 layer
  (type \<open>double\<close>: rounding to nearest with ties to even, gradual underflow, overflow
  to infinity, NaN) gives the aggregator, the simulation and the solver again with every
  operation rounded; it carries the results that rounding, overflow or NaN decide. Every
  division of the source is guarded by a test that its divisor is positive.

  Text inputs: the fields \<^verbatim>\<open>inputPrice\<close>, \<^verbatim>\<open>inputQuantity\<close>, \<^verbatim>\<open>simulationPrice\<close> and
  \<^verbatim>\<open>targetAverageInput\<close> are strings read with \<^verbatim>\<open>parseFloat\<close>. They are modelled
  after parsing as \<^typ>\<open>real option\<close>: \<open>None\<close> is an empty text or one that
  \<^verbatim>\<open>parseFloat\<close> reads as NaN (the source returns \<^verbatim>\<open>null\<close> for both, everywhere),
  \<open>Some r\<close> is a text read as the number \<open>r\<close>.
\<close>

subsection \<open>Data model (types.ts)\<close>

datatype TransactionType = BUY | SELL

text \<open>\<^verbatim>\<open>isActive?: boolean\<close> is optional: \<open>None\<close> is the absent field.\<close>

record Transaction =
  tx_id :: string
  symbol :: string
  price :: real
  quantity :: real
  timestamp :: real
  isActive :: "bool option"
  type :: TransactionType

record PortfolioSummary =
  totalQuantity :: real
  totalCost :: real
  averageCost :: real

datatype Status = PROFIT | LOSS | NEUTRAL

record SimulationResult =
  currentValue :: real
  profitOrLossTotal :: real
  profitOrLossPerShare :: real
  percentageChange :: real
  status :: Status

text \<open>The object \<^verbatim>\<open>{...t, realizedPL, realizedPLPercent}\<close> built by the annotator.\<close>

record TransactionWithStats =
  tx :: Transaction
  realizedPL :: "real option"
  realizedPLPercent :: real

text \<open>The object returned by \<^verbatim>\<open>previewData\<close>.\<close>

record PreviewData =
  newAvg :: real
  diff :: real
  isFirst :: bool
  estimatedRealizedPL :: "real option"

text \<open>
  The two objects returned by \<^verbatim>\<open>costAveragingData\<close>: \<^verbatim>\<open>{ error: "Hedef > Anlik Fiyat" }\<close>
  (target must exceed the simulated price), \<^verbatim>\<open>{ error: "Hedef < Ort. Maliyet" }\<close>
  (target must be below the average cost), and
  \<^verbatim>\<open>{ requiredQty, requiredCapital, error: null }\<close>.
\<close>

datatype SolverError = HedefGtAnlikFiyat | HedefLtOrtMaliyet

datatype CostAveraging =
  Error SolverError
  | Solved (requiredQty: real) (requiredCapital: real)

subsection \<open>Realized P/L annotator: \<^verbatim>\<open>transactionsWithStats\<close>\<close>

text \<open>
  \<^verbatim>\<open>t.isActive !== false\<close>: an absent flag counts as active.
\<close>

definition active :: "Transaction \<Rightarrow> bool" where
  "active t = (isActive t \<noteq> Some False)"

text \<open>
  One call of the \<^verbatim>\<open>map\<close> callback. The state is the pair of the closure variables
  \<^verbatim>\<open>(runningQty, runningTotalCost)\<close>; the callback returns the annotated transaction and
  leaves the state updated and clamped.
\<close>

definition annotateStep ::
  "real \<times> real \<Rightarrow> Transaction \<Rightarrow> TransactionWithStats \<times> (real \<times> real)" where
  "annotateStep s t =
    (case s of (runningQty, runningTotalCost) \<Rightarrow>
      let currentAvgCost = (if runningQty > 0 then runningTotalCost / runningQty else 0);
          (pl, pct, runningQty', runningTotalCost') =
            (if active t then
               (if type t = BUY then
                  (None, 0, runningQty + quantity t, runningTotalCost + price t * quantity t)
                else if runningQty > 0 then
                  (let costBasis = quantity t * currentAvgCost;
                       saleProceeds = quantity t * price t
                   in (Some (saleProceeds - costBasis),
                       (if currentAvgCost > 0
                        then ((price t - currentAvgCost) / currentAvgCost) * 100 else 0),
                       runningQty - quantity t,
                       runningTotalCost - costBasis))
                else
                  (None, 0, runningQty - quantity t, runningTotalCost - price t * quantity t))
             else (None, 0, runningQty, runningTotalCost))
      in (\<lparr>tx = t, realizedPL = pl, realizedPLPercent = pct\<rparr>,
          (max 0 runningQty', max 0 runningTotalCost')))"

fun annotateLoop ::
  "real \<times> real \<Rightarrow> Transaction list \<Rightarrow> TransactionWithStats list \<times> (real \<times> real)" where
  "annotateLoop s [] = ([], s)"
| "annotateLoop s (t # ts) =
     (let (a, s') = annotateStep s t;
          (rest, s'') = annotateLoop s' ts
      in (a # rest, s''))"

definition transactionsWithStats :: "Transaction list \<Rightarrow> TransactionWithStats list" where
  "transactionsWithStats currentTransactions = fst (annotateLoop (0, 0) currentTransactions)"

text \<open>The values of \<^verbatim>\<open>(runningQty, runningTotalCost)\<close> when the \<^verbatim>\<open>map\<close> has finished.\<close>

definition runningTotals :: "Transaction list \<Rightarrow> real \<times> real" where
  "runningTotals currentTransactions = snd (annotateLoop (0, 0) currentTransactions)"

subsection \<open>Position aggregator: \<^verbatim>\<open>summary\<close>\<close>

text \<open>One iteration of the \<^verbatim>\<open>for\<close> loop on \<^verbatim>\<open>(currentQty, currentTotalCost)\<close>.\<close>

definition summaryStep :: "real \<times> real \<Rightarrow> Transaction \<Rightarrow> real \<times> real" where
  "summaryStep s t =
    (case s of (currentQty, currentTotalCost) \<Rightarrow>
      if type t = BUY then
        (currentQty + quantity t, currentTotalCost + price t * quantity t)
      else if currentQty > 0 then
        (let avgCost = currentTotalCost / currentQty;
             currentQty' = currentQty - quantity t
         in (currentQty', currentQty' * avgCost))
      else
        (currentQty - quantity t, currentTotalCost - price t * quantity t))"

fun summaryLoop :: "real \<times> real \<Rightarrow> Transaction list \<Rightarrow> real \<times> real" where
  "summaryLoop s [] = s"
| "summaryLoop s (t # ts) = summaryLoop (summaryStep s t) ts"

definition summary :: "Transaction list \<Rightarrow> PortfolioSummary" where
  "summary currentTransactions =
    (let activeTx = filter active currentTransactions in
     if length activeTx = 0 then
       \<lparr>totalQuantity = 0, totalCost = 0, averageCost = 0\<rparr>
     else
       (case summaryLoop (0, 0) activeTx of (loopQty, loopTotalCost) \<Rightarrow>
          let currentQty = max 0 loopQty;
              currentTotalCost = max 0 loopTotalCost;
              avg = (if currentQty > 0 then currentTotalCost / currentQty else 0)
          in \<lparr>totalQuantity = currentQty, totalCost = currentTotalCost, averageCost = avg\<rparr>))"

subsection \<open>Preview engine: \<^verbatim>\<open>previewData\<close>\<close>

definition previewData ::
  "real option \<Rightarrow> real option \<Rightarrow> TransactionType \<Rightarrow> PortfolioSummary \<Rightarrow> PreviewData option" where
  "previewData inputPrice inputQuantity transactionType summ =
    (case inputPrice of None \<Rightarrow> None | Some p \<Rightarrow>
     (case inputQuantity of None \<Rightarrow> None | Some q \<Rightarrow>
       if p \<le> 0 \<or> q \<le> 0 then None
       else
         (let currentQ = totalQuantity summ;
              currentC = totalCost summ;
              currentAvg = averageCost summ;
              (futureQ, futureC, estimated) =
                (if transactionType = BUY then (currentQ + q, currentC + p * q, 0)
                 else (let futureQ = max 0 (currentQ - q)
                       in (futureQ, futureQ * currentAvg, (p - currentAvg) * q)));
              futureAvg = (if futureQ > 0 then futureC / futureQ else 0);
              d = futureAvg - currentAvg
          in Some \<lparr>newAvg = futureAvg, diff = d, isFirst = (currentQ = 0),
                   estimatedRealizedPL =
                     (if transactionType = SELL then Some estimated else None)\<rparr>)))"

subsection \<open>Simulation engine: \<^verbatim>\<open>simulation\<close>\<close>

definition simulation :: "real option \<Rightarrow> PortfolioSummary \<Rightarrow> SimulationResult option" where
  "simulation simulationPrice summ =
    (case simulationPrice of None \<Rightarrow> None | Some currentP \<Rightarrow>
      if totalQuantity summ = 0 then None
      else
        (let currentVal = currentP * totalQuantity summ;
             plTotal = currentVal - totalCost summ;
             plPerShare = currentP - averageCost summ;
             pctChange = (if averageCost summ > 0
                          then (plPerShare / averageCost summ) * 100 else 0)
         in Some \<lparr>currentValue = currentVal,
                  profitOrLossTotal = plTotal,
                  profitOrLossPerShare = plPerShare,
                  percentageChange = pctChange,
                  status = (if plTotal > 0 then PROFIT
                            else if plTotal < 0 then LOSS else NEUTRAL)\<rparr>))"

subsection \<open>Cost-averaging solver: \<^verbatim>\<open>costAveragingData\<close>\<close>

text \<open>
  The solver reads the derived value \<^verbatim>\<open>simulation\<close>, which the component computes from
  the same \<^verbatim>\<open>simulationPrice\<close> and \<^verbatim>\<open>summary\<close>; \<open>None\<close> is \<^verbatim>\<open>null\<close>. When the
  simulation exists, \<^verbatim>\<open>parseFloat(simulationPrice)\<close> is a number, so the case
  \<open>simulationPrice = None\<close> below is never reached past the first test.
\<close>

definition costAveragingData ::
  "real option \<Rightarrow> real option \<Rightarrow> PortfolioSummary \<Rightarrow> CostAveraging option" where
  "costAveragingData simulationPrice targetAverageInput summ =
    (case simulation simulationPrice summ of None \<Rightarrow> None | Some sim \<Rightarrow>
      if status sim \<noteq> LOSS then None
      else
       (case targetAverageInput of None \<Rightarrow> None | Some targetAvg \<Rightarrow>
        (case simulationPrice of None \<Rightarrow> None | Some simPrice \<Rightarrow>
          if targetAvg \<le> 0 then None
          else if targetAvg \<le> simPrice then Some (Error HedefGtAnlikFiyat)
          else if targetAvg \<ge> averageCost summ then Some (Error HedefLtOrtMaliyet)
          else
            (let rq = totalQuantity summ * (averageCost summ - targetAvg)
                        / (targetAvg - simPrice);
                 rc = rq * simPrice
             in Some (Solved rq rc)))))"

subsection \<open>Binary64 arithmetic\<close>

text \<open>
  A binary64 value is NaN, an infinity or a finite number. The two zeros are one value
  \<open>Fin 0\<close>: the engine divides only by numbers it has tested to be \<open>> 0\<close>, compares
  with \<open><\<close>, \<open>\<le>\<close>, \<open>===\<close> and clamps with \<^verbatim>\<open>Math.max(0, x)\<close>, and none of these tells
  \<open>-0\<close> from \<open>+0\<close>.

  \<open>fl\<close> rounds a real to binary64: \<open>ulp x\<close> is the spacing of the binary64 values
  around \<open>x > 0\<close> (\<open>2\<close> to the power \<open>e - 52\<close> in the binade \<open>2^e \<le> x < 2^(e+1)\<close>, and
  never less than \<open>2^-1074\<close>), \<open>rne\<close> rounds to the nearest integer with ties to even,
  and a result of magnitude \<open>2^1024\<close> or more is an infinity.

  \<open>isDouble x\<close> holds of every finite binary64 value: a multiple of \<open>2^-1074\<close> of
  magnitude at most the largest finite value. Prices, quantities and parsed inputs are
  finite binary64 values; the results that need it assume it with \<open>isDouble\<close>.
\<close>

datatype double = NaN | PosInf | NegInf | Fin real

fun dneg :: "double \<Rightarrow> double" where
  "dneg NaN = NaN"
| "dneg PosInf = NegInf"
| "dneg NegInf = PosInf"
| "dneg (Fin x) = Fin (- x)"

definition rne :: "real \<Rightarrow> int" where
  "rne y = (let f = \<lfloor>y\<rfloor>; r = y - of_int f
            in if r < 1 / 2 then f else if 1 / 2 < r then f + 1
               else if even f then f else f + 1)"

definition ulp :: "real \<Rightarrow> real" where
  "ulp x = 2 powr of_int (max (\<lfloor>log 2 x\<rfloor> - 52) (- 1074))"

definition roundPos :: "real \<Rightarrow> double" where
  "roundPos x =
     (if x = 0 then Fin 0
      else let v = of_int (rne (x / ulp x)) * ulp x
           in if 2 ^ 1024 \<le> v then PosInf else Fin v)"

definition fl :: "real \<Rightarrow> double" where
  "fl x = (if x < 0 then dneg (roundPos (- x)) else roundPos x)"

definition maxDouble :: real where
  "maxDouble = (2 ^ 53 - 1) * 2 powr 971"

definition isDouble :: "real \<Rightarrow> bool" where
  "isDouble x = ((\<exists>i::int. x = of_int i * 2 powr (- 1074)) \<and> \<bar>x\<bar> \<le> maxDouble)"

definition isBinary64 :: "double \<Rightarrow> bool" where
  "isBinary64 d = (case d of Fin x \<Rightarrow> isDouble x | _ \<Rightarrow> True)"

text \<open>
  The operations \<^verbatim>\<open>+\<close>, \<^verbatim>\<open>-\<close>, \<^verbatim>\<open>*\<close>, \<^verbatim>\<open>/\<close>, \<^verbatim>\<open><\<close>, \<^verbatim>\<open><=\<close> and \<^verbatim>\<open>Math.max\<close> on binary64
  values: the exact result rounded, with the IEEE 754 results on NaN and infinities
  (\<open>Infinity - Infinity\<close>, \<open>0 * Infinity\<close>, \<open>Infinity / Infinity\<close> and \<open>0 / 0\<close> are NaN;
  every comparison with NaN is false; \<^verbatim>\<open>Math.max\<close> of a NaN is NaN).
\<close>

fun dadd :: "double \<Rightarrow> double \<Rightarrow> double" where
  "dadd (Fin a) (Fin b) = fl (a + b)"
| "dadd NaN _ = NaN"
| "dadd _ NaN = NaN"
| "dadd PosInf NegInf = NaN"
| "dadd NegInf PosInf = NaN"
| "dadd PosInf _ = PosInf"
| "dadd _ PosInf = PosInf"
| "dadd NegInf _ = NegInf"
| "dadd _ NegInf = NegInf"

definition dsub :: "double \<Rightarrow> double \<Rightarrow> double" where
  "dsub a b = dadd a (dneg b)"

fun dmul :: "double \<Rightarrow> double \<Rightarrow> double" where
  "dmul (Fin a) (Fin b) = fl (a * b)"
| "dmul NaN _ = NaN"
| "dmul _ NaN = NaN"
| "dmul PosInf (Fin b) = (if b = 0 then NaN else if 0 < b then PosInf else NegInf)"
| "dmul NegInf (Fin b) = (if b = 0 then NaN else if 0 < b then NegInf else PosInf)"
| "dmul (Fin a) PosInf = (if a = 0 then NaN else if 0 < a then PosInf else NegInf)"
| "dmul (Fin a) NegInf = (if a = 0 then NaN else if 0 < a then NegInf else PosInf)"
| "dmul PosInf PosInf = PosInf"
| "dmul NegInf NegInf = PosInf"
| "dmul PosInf NegInf = NegInf"
| "dmul NegInf PosInf = NegInf"

fun ddiv :: "double \<Rightarrow> double \<Rightarrow> double" where
  "ddiv (Fin a) (Fin b) =
     (if b = 0 then (if a = 0 then NaN else if 0 < a then PosInf else NegInf)
      else fl (a / b))"
| "ddiv NaN _ = NaN"
| "ddiv _ NaN = NaN"
| "ddiv (Fin a) _ = Fin 0"
| "ddiv PosInf (Fin b) = (if 0 \<le> b then PosInf else NegInf)"
| "ddiv NegInf (Fin b) = (if 0 \<le> b then NegInf else PosInf)"
| "ddiv _ _ = NaN"

fun dless :: "double \<Rightarrow> double \<Rightarrow> bool" where
  "dless (Fin a) (Fin b) = (a < b)"
| "dless NaN _ = False"
| "dless _ NaN = False"
| "dless _ NegInf = False"
| "dless PosInf _ = False"
| "dless _ _ = True"

fun dle :: "double \<Rightarrow> double \<Rightarrow> bool" where
  "dle (Fin a) (Fin b) = (a \<le> b)"
| "dle NaN _ = False"
| "dle _ NaN = False"
| "dle NegInf _ = True"
| "dle _ PosInf = True"
| "dle _ _ = False"

definition dmax :: "double \<Rightarrow> double \<Rightarrow> double" where
  "dmax a b = (if a = NaN \<or> b = NaN then NaN else if dless a b then b else a)"

subsection \<open>Aggregator, simulation and solver over binary64\<close>

text \<open>
  The same three derivations of \<^verbatim>\<open>App.tsx\<close> (lines 166-202, 240-258, 261-285) with
  binary64 operations. The price and the quantity of a transaction and the parsed text
  inputs are finite numbers, embedded with \<open>Fin\<close>.
\<close>

record PortfolioSummary64 =
  totalQuantity64 :: double
  totalCost64 :: double
  averageCost64 :: double

record SimulationResult64 =
  currentValue64 :: double
  profitOrLossTotal64 :: double
  profitOrLossPerShare64 :: double
  percentageChange64 :: double
  status64 :: Status

datatype CostAveraging64 =
  Error64 SolverError
  | Solved64 (requiredQty64: double) (requiredCapital64: double)

definition summaryStep64 :: "double \<times> double \<Rightarrow> Transaction \<Rightarrow> double \<times> double" where
  "summaryStep64 s t =
    (case s of (currentQty, currentTotalCost) \<Rightarrow>
      if type t = BUY then
        (dadd currentQty (Fin (quantity t)),
         dadd currentTotalCost (dmul (Fin (price t)) (Fin (quantity t))))
      else if dless (Fin 0) currentQty then
        (let avgCost = ddiv currentTotalCost currentQty;
             currentQty' = dsub currentQty (Fin (quantity t))
         in (currentQty', dmul currentQty' avgCost))
      else
        (dsub currentQty (Fin (quantity t)),
         dsub currentTotalCost (dmul (Fin (price t)) (Fin (quantity t)))))"

fun summaryLoop64 :: "double \<times> double \<Rightarrow> Transaction list \<Rightarrow> double \<times> double" where
  "summaryLoop64 s [] = s"
| "summaryLoop64 s (t # ts) = summaryLoop64 (summaryStep64 s t) ts"

definition summary64 :: "Transaction list \<Rightarrow> PortfolioSummary64" where
  "summary64 currentTransactions =
    (let activeTx = filter active currentTransactions in
     if length activeTx = 0 then
       \<lparr>totalQuantity64 = Fin 0, totalCost64 = Fin 0, averageCost64 = Fin 0\<rparr>
     else
       (case summaryLoop64 (Fin 0, Fin 0) activeTx of (loopQty, loopTotalCost) \<Rightarrow>
          let currentQty = dmax (Fin 0) loopQty;
              currentTotalCost = dmax (Fin 0) loopTotalCost;
              avg = (if dless (Fin 0) currentQty then ddiv currentTotalCost currentQty
                     else Fin 0)
          in \<lparr>totalQuantity64 = currentQty, totalCost64 = currentTotalCost,
               averageCost64 = avg\<rparr>))"

definition simulation64 ::
  "real option \<Rightarrow> PortfolioSummary64 \<Rightarrow> SimulationResult64 option" where
  "simulation64 simulationPrice summ =
    (case simulationPrice of None \<Rightarrow> None | Some currentP \<Rightarrow>
      if totalQuantity64 summ = Fin 0 then None
      else
        (let currentVal = dmul (Fin currentP) (totalQuantity64 summ);
             plTotal = dsub currentVal (totalCost64 summ);
             plPerShare = dsub (Fin currentP) (averageCost64 summ);
             pctChange = (if dless (Fin 0) (averageCost64 summ)
                          then dmul (ddiv plPerShare (averageCost64 summ)) (Fin 100)
                          else Fin 0)
         in Some \<lparr>currentValue64 = currentVal,
                  profitOrLossTotal64 = plTotal,
                  profitOrLossPerShare64 = plPerShare,
                  percentageChange64 = pctChange,
                  status64 = (if dless (Fin 0) plTotal then PROFIT
                              else if dless plTotal (Fin 0) then LOSS else NEUTRAL)\<rparr>))"

definition costAveragingData64 ::
  "real option \<Rightarrow> real option \<Rightarrow> PortfolioSummary64 \<Rightarrow> CostAveraging64 option" where
  "costAveragingData64 simulationPrice targetAverageInput summ =
    (case simulation64 simulationPrice summ of None \<Rightarrow> None | Some sim \<Rightarrow>
      if status64 sim \<noteq> LOSS then None
      else
       (case targetAverageInput of None \<Rightarrow> None | Some targetAvg \<Rightarrow>
        (case simulationPrice of None \<Rightarrow> None | Some simPrice \<Rightarrow>
          if targetAvg \<le> 0 then None
          else if targetAvg \<le> simPrice then Some (Error64 HedefGtAnlikFiyat)
          else if dle (averageCost64 summ) (Fin targetAvg)
            then Some (Error64 HedefLtOrtMaliyet)
          else
            (let rq = ddiv (dmul (totalQuantity64 summ)
                              (dsub (averageCost64 summ) (Fin targetAvg)))
                        (dsub (Fin targetAvg) (Fin simPrice));
                 rc = dmul rq (Fin simPrice)
             in Some (Solved64 rq rc)))))"

subsection \<open>Sequences without overselling\<close>

text \<open>
  A predicate on the aggregator's replay, used to say when the two replays agree: from
  the loop state \<open>s\<close>, no SELL of the sequence sells more than the running quantity
  the aggregator holds at that step.
\<close>

fun noOversell :: "real \<times> real \<Rightarrow> Transaction list \<Rightarrow> bool" where
  "noOversell s [] = True"
| "noOversell s (t # ts) =
     ((type t = BUY \<or> quantity t \<le> fst s) \<and> noOversell (summaryStep s t) ts)"

subsection \<open>Example inputs\<close>

text \<open>
  Concrete values used to evaluate the definitions: a transaction of the portfolio
  \<^verbatim>\<open>GENEL\<close> with the given type, quantity, price and active flag, and the position
  \<open>qty = 10, cost = 1000, avg = 100\<close>.
\<close>

definition exampleTx :: "TransactionType \<Rightarrow> real \<Rightarrow> real \<Rightarrow> bool option \<Rightarrow> Transaction" where
  "exampleTx ty q p a =
     \<lparr>tx_id = ''tx'', symbol = ''GENEL'', price = p, quantity = q, timestamp = 0,
      isActive = a, type = ty\<rparr>"

definition examplePosition :: PortfolioSummary where
  "examplePosition = \<lparr>totalQuantity = 10, totalCost = 1000, averageCost = 100\<rparr>"

definition examplePosition64 :: PortfolioSummary64 where
  "examplePosition64 = \<lparr>totalQuantity64 = Fin 10, totalCost64 = Fin 1000, averageCost64 = Fin 100\<rparr>"

lemmas example_simps = exampleTx_def examplePosition_def active_def

section \<open>The aggregator's loop and its final clamp, in exact arithmetic\<close>

lemma summaryLoop_append:
  "summaryLoop s (xs @ ys) = summaryLoop (summaryLoop s xs) ys"
  by (induction xs arbitrary: s) simp_all

lemma summary_eq:
  "summary txs =
    (case summaryLoop (0, 0) (filter active txs) of (lq, lc) \<Rightarrow>
       \<lparr>totalQuantity = max 0 lq, totalCost = max 0 lc,
        averageCost = (if max 0 lq > 0 then max 0 lc / max 0 lq else 0)\<rparr>)"
  by (cases "filter active txs") (simp_all add: summary_def Let_def split: prod.splits)

section \<open>Properties of the realized P/L annotator\<close>

text \<open>
  The state left by one call of the annotator's callback, and the clamp inside the loop:
  after every prefix of the sequence the running quantity and the running cost are
  non-negative.
\<close>

lemma annotateStep_state:
  "snd (annotateStep (rq, rc) t) =
     (if \<not> active t then (max 0 rq, max 0 rc)
      else if type t = BUY then (max 0 (rq + quantity t), max 0 (rc + price t * quantity t))
      else if rq > 0 then (max 0 (rq - quantity t), max 0 (rc - quantity t * (rc / rq)))
      else (max 0 (rq - quantity t), max 0 (rc - price t * quantity t)))"
  by (simp add: annotateStep_def Let_def)

lemma annotateStep_clamped:
  "0 \<le> fst (snd (annotateStep s t)) \<and> 0 \<le> snd (snd (annotateStep s t))"
  by (cases s) (simp add: annotateStep_state)

lemma annotateLoop_snoc:
  "snd (annotateLoop s (txs @ [t])) = snd (annotateStep (snd (annotateLoop s txs)) t)"
  by (induction txs arbitrary: s) (simp_all add: split_beta Let_def)

lemma annotateLoop_nonneg:
  "0 \<le> fst s \<and> 0 \<le> snd s \<Longrightarrow>
     0 \<le> fst (snd (annotateLoop s txs)) \<and> 0 \<le> snd (snd (annotateLoop s txs))"
proof (induction txs arbitrary: s)
  case Nil
  then show ?case by simp
next
  case (Cons t ts)
  have "snd (annotateLoop s (t # ts)) = snd (annotateLoop (snd (annotateStep s t)) ts)"
    by (simp add: split_beta Let_def)
  with Cons.IH [OF annotateStep_clamped] show ?case by simp
qed

lemma runningTotals_prefix_nonneg:
  "0 \<le> fst (runningTotals (take n txs)) \<and> 0 \<le> snd (runningTotals (take n txs))"
  unfolding runningTotals_def by (rule annotateLoop_nonneg) simp

text \<open>
  C2. The claim is that both replays clamp the running quantity and cost to zero after
  each transaction. The annotator does (\<open>runningTotals_prefix_nonneg\<close>); the aggregator
  clamps once, after its loop. Evaluated on an active SELL of 5 units at 10 from the empty
  position, the aggregator's loop leaves \<open>(-5, -50)\<close> unclamped, and the BUY of 10 units
  at 100 that follows is added to these negative totals: the position returned is
  \<open>qty = 5, cost = 950, avg = 190\<close>.
\<close>

theorem summary_loop_not_clamped_example:
  "summaryLoop (0, 0) [exampleTx SELL 5 10 (Some True)] = (- 5, - 50) \<and>
   summary [exampleTx SELL 5 10 (Some True), exampleTx BUY 10 100 (Some True)] =
     \<lparr>totalQuantity = 5, totalCost = 950, averageCost = 190\<rparr>"
  by (simp add: summary_def summaryStep_def example_simps)

text \<open>
  C4. The claim is that the annotator's final running quantity and cost equal the
  quantity and cost of the aggregator's position on the same sequence. On the sequence
  SELL 5 at 10, BUY 10 at 100 the annotator ends with \<open>(10, 1000)\<close> and the aggregator
  with \<open>qty = 5, cost = 950\<close>.
\<close>

theorem annotator_differs_from_summary_example:
  "runningTotals [exampleTx SELL 5 10 (Some True), exampleTx BUY 10 100 (Some True)] = (10, 1000) \<and>
   totalQuantity (summary [exampleTx SELL 5 10 (Some True), exampleTx BUY 10 100 (Some True)]) = 5 \<and>
   totalCost (summary [exampleTx SELL 5 10 (Some True), exampleTx BUY 10 100 (Some True)]) = 950"
  by (simp add: runningTotals_def annotateStep_def summary_def summaryStep_def example_simps)

text \<open>
  In exact arithmetic the two replays agree on every sequence with non-negative prices
  and quantities in which no active SELL exceeds the running quantity. (In binary64 the
  annotator's \<^verbatim>\<open>cost - q * avg\<close> and the aggregator's \<^verbatim>\<open>(qty - q) * avg\<close> can
  still differ by rounding.)
\<close>

lemma annotateStep_agrees:
  assumes "0 \<le> rq" and "0 \<le> rc" and "active t"
    and "0 \<le> price t" and "0 \<le> quantity t"
    and "type t = BUY \<or> quantity t \<le> rq"
  shows "snd (annotateStep (rq, rc) t) = summaryStep (rq, rc) t \<and>
         0 \<le> fst (summaryStep (rq, rc) t) \<and> 0 \<le> snd (summaryStep (rq, rc) t)"
proof (cases "type t")
  case BUY
  with assms show ?thesis by (simp add: annotateStep_state summaryStep_def)
next
  case SELL
  with assms(6) have le: "quantity t \<le> rq" by simp
  show ?thesis
  proof (cases "0 < rq")
    case True
    have eq: "rc - quantity t * (rc / rq) = (rq - quantity t) * (rc / rq)"
      using True by (simp add: field_simps)
    have nn: "0 \<le> (rq - quantity t) * (rc / rq)"
      using le assms(2) True by simp
    have m: "max 0 (rc - quantity t * (rc / rq)) = (rq - quantity t) * (rc / rq)"
      unfolding eq using nn by (rule max_absorb2)
    have A: "snd (annotateStep (rq, rc) t) =
        (max 0 (rq - quantity t), max 0 (rc - quantity t * (rc / rq)))"
      using SELL True assms(3) by (simp add: annotateStep_state)
    have B: "summaryStep (rq, rc) t = (rq - quantity t, (rq - quantity t) * (rc / rq))"
      using SELL True by (simp add: summaryStep_def Let_def)
    have "max 0 (rq - quantity t) = rq - quantity t" using le by simp
    with nn show ?thesis unfolding A B m by simp
  next
    case False
    with assms le have "rq = 0" "quantity t = 0" by simp_all
    with SELL assms show ?thesis by (simp add: annotateStep_state summaryStep_def)
  qed
qed

lemma annotateLoop_agrees:
  assumes "0 \<le> fst s" and "0 \<le> snd s"
    and "\<forall>t \<in> set txs. 0 \<le> price t \<and> 0 \<le> quantity t"
    and "noOversell s (filter active txs)"
  shows "snd (annotateLoop s txs) = summaryLoop s (filter active txs) \<and>
         0 \<le> fst (summaryLoop s (filter active txs)) \<and>
         0 \<le> snd (summaryLoop s (filter active txs))"
  using assms
proof (induction txs arbitrary: s)
  case Nil
  then show ?case by simp
next
  case (Cons t ts)
  obtain rq rc where s: "s = (rq, rc)" by (cases s)
  show ?case
  proof (cases "active t")
    case False
    have "snd (annotateStep s t) = s"
      using Cons.prems(1,2) False by (simp add: s annotateStep_state)
    then have "snd (annotateLoop s (t # ts)) = snd (annotateLoop s ts)"
      by (simp add: split_beta Let_def)
    with Cons.IH [of s] Cons.prems False show ?thesis by simp
  next
    case True
    have a: "snd (annotateStep s t) = summaryStep s t \<and>
         0 \<le> fst (summaryStep s t) \<and> 0 \<le> snd (summaryStep s t)"
      unfolding s
      using Cons.prems True by (intro annotateStep_agrees) (simp_all add: s)
    then have "snd (annotateLoop s (t # ts)) = snd (annotateLoop (summaryStep s t) ts)"
      by (simp add: split_beta Let_def)
    moreover have "noOversell (summaryStep s t) (filter active ts)"
      using Cons.prems(4) True by simp
    ultimately show ?thesis
      using Cons.IH [of "summaryStep s t"] a Cons.prems(3) True by simp
  qed
qed

lemma annotator_agrees_without_oversell:
  assumes "\<forall>t \<in> set txs. 0 \<le> price t \<and> 0 \<le> quantity t"
    and "noOversell (0, 0) (filter active txs)"
  shows "fst (runningTotals txs) = totalQuantity (summary txs) \<and>
         snd (runningTotals txs) = totalCost (summary txs)"
  using annotateLoop_agrees [of "(0, 0)" txs] assms
  by (auto simp: runningTotals_def summary_eq max_def split: prod.splits)

text \<open>
  The annotated transaction at index \<open>i\<close> is computed by one step from the running totals
  of the first \<open>i\<close> transactions.
\<close>

lemma annotateLoop_length: "length (fst (annotateLoop s txs)) = length txs"
  by (induction txs arbitrary: s) (simp_all add: split_beta Let_def)

lemma annotateLoop_nth:
  "i < length txs \<Longrightarrow>
     fst (annotateLoop s txs) ! i =
       fst (annotateStep (snd (annotateLoop s (take i txs))) (txs ! i))"
proof (induction txs arbitrary: s i)
  case Nil
  then show ?case by simp
next
  case (Cons t ts)
  show ?case
  proof (cases i)
    case 0
    then show ?thesis by (simp add: split_beta Let_def)
  next
    case (Suc j)
    with Cons.prems have "j < length ts" by simp
    from Cons.IH [OF this] Suc show ?thesis by (simp add: split_beta Let_def)
  qed
qed

lemma annotateStep_result:
  "fst (annotateStep (rq, rc) t) =
    \<lparr>tx = t,
     realizedPL = (if active t \<and> type t = SELL \<and> rq > 0
                   then Some (quantity t * price t - quantity t * (rc / rq)) else None),
     realizedPLPercent = (if active t \<and> type t = SELL \<and> rq > 0 \<and> rc / rq > 0
                          then (price t - rc / rq) / (rc / rq) * 100 else 0)\<rparr>"
  by (cases "type t") (simp_all add: annotateStep_def Let_def)

text \<open>
  C5 as stated fails on an inactive SELL: in the sequence BUY 10 at 100 (active),
  SELL 4 at 150 (inactive) the running quantity at the SELL is 10, and the SELL is
  annotated with no realized P/L.
\<close>

theorem inactive_sell_counterexample:
  "fst (runningTotals (take 1
      [exampleTx BUY 10 100 (Some True), exampleTx SELL 4 150 (Some False)])) = 10 \<and>
   type ([exampleTx BUY 10 100 (Some True), exampleTx SELL 4 150 (Some False)] ! 1) = SELL \<and>
   realizedPL (transactionsWithStats
      [exampleTx BUY 10 100 (Some True), exampleTx SELL 4 150 (Some False)] ! 1) = None"
  by (simp add: runningTotals_def transactionsWithStats_def annotateStep_def example_simps)

text \<open>
  C5, amended. For every transaction sequence, the annotator attaches to each active SELL
  at which the running quantity is strictly positive a realized P/L of
  \<open>quantity * price - quantity * preSaleAverage\<close>, where \<open>preSaleAverage\<close> is the running
  cost divided by the running quantity before the sale, and a realized percentage of
  \<open>(price - preSaleAverage) / preSaleAverage * 100\<close> when the pre-sale average is positive
  (else 0); every BUY, every SELL executed when the running quantity is \<open>\<le> 0\<close> and every
  inactive transaction gets no realized P/L. The sequence BUY 10 at 100, SELL 4 at 150
  (both active) yields 200 and 50 on the sell.
\<close>

theorem realizedPL_annotation:
  assumes "i < length txs"
    and "runningTotals (take i txs) = (runningQty, runningTotalCost)"
    and "preSaleAverage = runningTotalCost / runningQty"
  shows "tx (transactionsWithStats txs ! i) = txs ! i \<and>
    (active (txs ! i) \<and> type (txs ! i) = SELL \<and> runningQty > 0 \<longrightarrow>
       realizedPL (transactionsWithStats txs ! i) =
         Some (quantity (txs ! i) * price (txs ! i) - quantity (txs ! i) * preSaleAverage) \<and>
       realizedPLPercent (transactionsWithStats txs ! i) =
         (if preSaleAverage > 0
          then (price (txs ! i) - preSaleAverage) / preSaleAverage * 100 else 0)) \<and>
    (type (txs ! i) = BUY \<or> runningQty \<le> 0 \<or> \<not> active (txs ! i) \<longrightarrow>
       realizedPL (transactionsWithStats txs ! i) = None)"
proof -
  have "transactionsWithStats txs ! i = fst (annotateStep (runningQty, runningTotalCost) (txs ! i))"
    using annotateLoop_nth [OF assms(1), of "(0, 0)"] assms(2)
    by (simp add: transactionsWithStats_def runningTotals_def)
  then show ?thesis
    by (auto simp: annotateStep_result assms(3))
qed

theorem realizedPL_annotation_witness:
  "realizedPL (transactionsWithStats
      [exampleTx BUY 10 100 (Some True), exampleTx SELL 4 150 (Some True)] ! 1) = Some 200 \<and>
   realizedPLPercent (transactionsWithStats
      [exampleTx BUY 10 100 (Some True), exampleTx SELL 4 150 (Some True)] ! 1) = 50 \<and>
   realizedPL (transactionsWithStats
      [exampleTx BUY 10 100 (Some True), exampleTx SELL 4 150 (Some True)] ! 0) = None"
proof -
  let ?txs = "[exampleTx BUY 10 100 (Some True), exampleTx SELL 4 150 (Some True)]"
  have l1: "1 < length ?txs" and l0: "0 < length ?txs"
    by simp_all
  have r1: "runningTotals (take 1 ?txs) = (10, 1000)"
    by (simp add: runningTotals_def annotateStep_def example_simps)
  have r0: "runningTotals (take 0 ?txs) = (0, 0)"
    by (simp add: runningTotals_def)
  have a1: "(100::real) = 1000 / 10" and a0: "(0::real) = 0 / 0"
    by simp_all
  have "realizedPL (transactionsWithStats ?txs ! 1) = Some 200 \<and>
        realizedPLPercent (transactionsWithStats ?txs ! 1) = 50"
    using realizedPL_annotation [OF l1 r1 a1] by (simp add: example_simps)
  moreover have "realizedPL (transactionsWithStats ?txs ! 0) = None"
    using realizedPL_annotation [OF l0 r0 a0] by (simp add: example_simps)
  ultimately show ?thesis by simp
qed

section \<open>Properties of the cost-averaging solver\<close>

text \<open>
  C6. Offered a simulation with status LOSS, the solver validates in this order: a target
  \<open>\<le> 0\<close> gives no result; otherwise a target \<open>\<le> simPrice\<close> gives the first error;
  otherwise a target \<open>\<ge> averageCost\<close> gives the second error; only otherwise a solve is
  returned. Every outcome is a value of the result type: no branch raises.
\<close>

theorem costAveraging_validation_order:
  assumes "simulation (Some simPrice) summ = Some sim" and "status sim = LOSS"
  shows "costAveragingData (Some simPrice) (Some targetAvg) summ =
          (if targetAvg \<le> 0 then None
           else if targetAvg \<le> simPrice then Some (Error HedefGtAnlikFiyat)
           else if targetAvg \<ge> averageCost summ then Some (Error HedefLtOrtMaliyet)
           else Some (Solved
                  (totalQuantity summ * (averageCost summ - targetAvg) / (targetAvg - simPrice))
                  (totalQuantity summ * (averageCost summ - targetAvg) / (targetAvg - simPrice)
                     * simPrice)))"
  using assms by (simp add: costAveragingData_def Let_def)

theorem costAveraging_validation_order_witness:
  "simulation (Some 50) examplePosition =
     Some \<lparr>currentValue = 500, profitOrLossTotal = - 500, profitOrLossPerShare = - 50,
           percentageChange = - 50, status = LOSS\<rparr> \<and>
   costAveragingData (Some 50) (Some (- 1)) examplePosition = None \<and>
   costAveragingData (Some 50) (Some 40) examplePosition = Some (Error HedefGtAnlikFiyat) \<and>
   costAveragingData (Some 50) (Some 100) examplePosition = Some (Error HedefLtOrtMaliyet) \<and>
   costAveragingData (Some 50) (Some 90) examplePosition = Some (Solved (5 / 2) 125)"
proof -
  let ?sim = "\<lparr>currentValue = 500, profitOrLossTotal = - 500, profitOrLossPerShare = - 50,
           percentageChange = - 50, status = LOSS\<rparr>"
  have s: "simulation (Some 50) examplePosition = Some ?sim"
    by (simp add: simulation_def examplePosition_def)
  have l: "status ?sim = LOSS" by simp
  note v = costAveraging_validation_order [OF s l]
  show ?thesis
    using s v [of "- 1"] v [of 40] v [of 100] v [of 90]
    by (simp add: examplePosition_def)
qed

section \<open>Properties of the preview engine\<close>

text \<open>
  C9. For a position \<open>(qty, cost, avg)\<close> and a hypothetical transaction with price \<open>p > 0\<close>
  and quantity \<open>q > 0\<close>, the preview of a BUY is computed from \<open>newQty = qty + q\<close> and
  \<open>newCost = cost + p * q\<close> and has no estimated realized P/L; the preview of a SELL is
  computed from \<open>newQty = max 0 (qty - q)\<close> and \<open>newCost = newQty * avg\<close> and estimates
  \<open>(p - avg) * q\<close>. In both, the new average is \<open>newCost / newQty\<close> when \<open>newQty > 0\<close> and 0
  otherwise, the difference is the new average minus \<open>avg\<close>, and the first-transaction flag
  holds exactly when \<open>qty = 0\<close>. When the price or the quantity is not a number or is
  \<open>\<le> 0\<close> there is no preview.
\<close>

theorem previewData_result:
  fixes summ :: PortfolioSummary
  defines "qty \<equiv> totalQuantity summ" and "cost \<equiv> totalCost summ" and "avg \<equiv> averageCost summ"
  shows "(0 < p \<and> 0 < q \<longrightarrow>
           previewData (Some p) (Some q) BUY summ =
             (let newQty = qty + q; newCost = cost + p * q;
                  newAverage = (if newQty > 0 then newCost / newQty else 0)
              in Some \<lparr>newAvg = newAverage, diff = newAverage - avg, isFirst = (qty = 0),
                       estimatedRealizedPL = None\<rparr>) \<and>
           previewData (Some p) (Some q) SELL summ =
             (let newQty = max 0 (qty - q); newCost = newQty * avg;
                  newAverage = (if newQty > 0 then newCost / newQty else 0)
              in Some \<lparr>newAvg = newAverage, diff = newAverage - avg, isFirst = (qty = 0),
                       estimatedRealizedPL = Some ((p - avg) * q)\<rparr>)) \<and>
         (p \<le> 0 \<or> q \<le> 0 \<longrightarrow> previewData (Some p) (Some q) ty summ = None) \<and>
         previewData None inputQuantity ty summ = None \<and>
         previewData inputPrice None ty summ = None"
  by (cases inputPrice) (auto simp: previewData_def Let_def qty_def cost_def avg_def)

theorem previewData_result_witness:
  "previewData (Some 150) (Some 4) BUY examplePosition =
     Some \<lparr>newAvg = 800 / 7, diff = 100 / 7, isFirst = False, estimatedRealizedPL = None\<rparr> \<and>
   previewData (Some 150) (Some 4) SELL examplePosition =
     Some \<lparr>newAvg = 100, diff = 0, isFirst = False, estimatedRealizedPL = Some 200\<rparr> \<and>
   previewData (Some 0) (Some 4) SELL examplePosition = None \<and>
   previewData (Some 150) (Some (- 1)) BUY examplePosition = None"
  using previewData_result [of 150 4 examplePosition]
    previewData_result [of 0 4 examplePosition SELL]
    previewData_result [of 150 "- 1" examplePosition BUY]
  by (simp add: examplePosition_def Let_def)

section \<open>Properties of the simulation engine\<close>

text \<open>
  C3 as stated fails: the simulation tests that the price text is present and is a number,
  and that the quantity is not zero; it does not test the sign of the price. At the price
  \<open>-5\<close> on the position \<open>qty = 10, cost = 1000, avg = 100\<close> it returns a computed result.
\<close>

theorem simulation_nonpositive_price_counterexample:
  "(- 5 :: real) \<le> 0 \<and>
   simulation (Some (- 5)) examplePosition =
     Some \<lparr>currentValue = - 50, profitOrLossTotal = - 1050, profitOrLossPerShare = - 105,
           percentageChange = - 105, status = LOSS\<rparr>"
  by (simp add: simulation_def examplePosition_def)

text \<open>
  C3, amended. The simulation yields no derivation exactly when the price is absent or
  not a number, or the quantity of the position is zero; a numeric price, positive or
  not, on a position with a non-zero quantity yields a computed result.
\<close>

theorem simulation_null_iff:
  "simulation simulationPrice summ = None \<longleftrightarrow>
     simulationPrice = None \<or> totalQuantity summ = 0"
  by (simp add: simulation_def Let_def split: option.splits)

section \<open>Binary64 rounding\<close>

text \<open>
  Facts on \<open>rne\<close>, \<open>ulp\<close> and \<open>fl\<close>: the binade of a positive number determines its
  \<open>ulp\<close>; rounding keeps the sign, keeps a finite binary64 value unchanged, keeps a number
  of at least \<open>2^-1074\<close> positive and a number up to the largest finite value finite, and
  sends a number of at least \<open>2^1024\<close> to infinity.
\<close>

lemma rne_cases: "rne y = \<lfloor>y\<rfloor> \<or> rne y = \<lfloor>y\<rfloor> + 1"
  by (simp add: rne_def Let_def)

lemma rne_of_int [simp]: "rne (of_int i) = i"
  by (simp add: rne_def Let_def)

lemma rne_ge: "of_int N \<le> y \<Longrightarrow> N \<le> rne y"
proof -
  assume "of_int N \<le> y"
  then have "N \<le> \<lfloor>y\<rfloor>" by (simp only: le_floor_iff)
  with rne_cases [of y] show ?thesis by linarith
qed

lemma rne_le: "y \<le> of_int N \<Longrightarrow> rne y \<le> N"
proof (cases "y = of_int N")
  case True
  then show ?thesis by simp
next
  case False
  assume "y \<le> of_int N"
  with False have "y < of_int N" by simp
  then have "\<lfloor>y\<rfloor> < N" by (simp add: floor_less_iff)
  with rne_cases [of y] show ?thesis by auto
qed


lemma ulp_pos: "0 < ulp x"
  by (simp add: ulp_def)

lemma ulp_unique:
  assumes "0 < x" and "- 1074 \<le> k" and "x < 2 powr (of_int k + 53)"
    and "k = - 1074 \<or> 2 powr (of_int k + 52) \<le> x"
  shows "ulp x = 2 powr of_int k"
proof -
  have "max (\<lfloor>log 2 x\<rfloor> - 52) (- 1074) = k"
  proof (cases "2 powr (of_int k + 52) \<le> x")
    case True
    have "\<lfloor>log 2 x\<rfloor> = k + 52"
      using assms(1,3) True by (subst floor_log_eq_powr_iff) (auto simp: add.commute add.left_commute)
    with assms(2) show ?thesis by simp
  next
    case False
    with assms(4) have k: "k = - 1074" by simp
    from False have "x < 2 powr (of_int (k + 52))" by simp
    then have "log 2 x < of_int (k + 52)"
      using assms(1) by (subst log_less_iff) auto
    then have "\<lfloor>log 2 x\<rfloor> < k + 52"
      by (simp only: floor_less_iff)
    with k show ?thesis by linarith
  qed
  then show ?thesis by (simp add: ulp_def)
qed

lemma ulp_facts:
  assumes "0 < x"
  obtains k :: int where "ulp x = 2 powr of_int k" and "- 1074 \<le> k"
    and "x < 2 powr (of_int k + 53)" and "k = - 1074 \<or> 2 powr (of_int k + 52) \<le> x"
proof -
  define e where "e = \<lfloor>log 2 x\<rfloor>"
  define k where "k = max (e - 52) (- 1074)"
  have e: "2 powr of_int e \<le> x" "x < 2 powr (of_int e + 1)"
    using floor_log_eq_powr_iff [of x 2 e] assms by (simp_all add: e_def)
  have "of_int e + 1 \<le> (of_int k + 53 :: real)"
    by (simp add: k_def)
  then have "(2::real) powr (of_int e + 1) \<le> 2 powr (of_int k + 53)"
    by (intro powr_mono) simp_all
  with e(2) have a: "x < 2 powr (of_int k + 53)" by (rule less_le_trans)
  have b: "k = - 1074 \<or> 2 powr (of_int k + 52) \<le> x"
  proof (cases "k = - 1074")
    case True
    then show ?thesis by simp
  next
    case False
    then have "k = e - 52" by (simp add: k_def max_def split: if_splits)
    with e(1) show ?thesis by simp
  qed
  have u: "ulp x = 2 powr of_int k"
    by (simp add: ulp_def k_def e_def)
  have l: "- 1074 \<le> k"
    by (simp add: k_def)
  from u l a b show ?thesis by (rule that)
qed


lemma roundPos_eval:
  assumes "0 < x" and "- 1074 \<le> k" and "x < 2 ^ 53 * 2 powr of_int k"
    and "k = - 1074 \<or> 2 ^ 52 * 2 powr of_int k \<le> x"
    and "m = rne (x / 2 powr of_int k)" and "c = of_int m * 2 powr of_int k"
    and "c < 2 ^ 1024"
  shows "roundPos x = Fin c"
proof -
  have p53: "(2::real) powr (of_int k + 53) = 2 ^ 53 * 2 powr of_int k"
    and p52: "(2::real) powr (of_int k + 52) = 2 ^ 52 * 2 powr of_int k"
    by (simp_all add: powr_add mult.commute)
  have "ulp x = 2 powr of_int k"
    using assms(1-4) unfolding p53 [symmetric] p52 [symmetric] by (rule ulp_unique)
  with assms(1,5,6,7) show ?thesis by (simp add: roundPos_def Let_def)
qed


lemma roundPos_zero [simp]: "roundPos 0 = Fin 0"
  by (simp add: roundPos_def)

lemma roundPos_nonneg:
  assumes "0 \<le> x"
  shows "roundPos x = PosInf \<or> (\<exists>v. roundPos x = Fin v \<and> 0 \<le> v)"
proof -
  have "0 \<le> x / ulp x" using assms ulp_pos [of x] by simp
  then have "0 \<le> rne (x / ulp x)" using rne_ge [of 0] by simp
  then have "0 \<le> of_int (rne (x / ulp x)) * ulp x" using ulp_pos [of x] by simp
  then show ?thesis by (simp add: roundPos_def Let_def)
qed

lemma roundPos_pos:
  assumes "2 powr (- 1074) \<le> x"
  shows "roundPos x = PosInf \<or> (\<exists>v. roundPos x = Fin v \<and> 0 < v)"
proof -
  have x: "0 < x" using assms by (rule less_le_trans [rotated]) simp
  then obtain k :: int where k: "ulp x = 2 powr of_int k" "- 1074 \<le> k"
    "k = - 1074 \<or> 2 powr (of_int k + 52) \<le> x"
    by (rule ulp_facts)
  have "2 powr of_int k \<le> x"
  proof (cases "k = - 1074")
    case True
    with assms show ?thesis by simp
  next
    case False
    with k(3) have "2 powr (of_int k + 52) \<le> x" by simp
    moreover have "(2::real) powr of_int k \<le> 2 powr (of_int k + 52)"
      by (rule powr_mono) simp_all
    ultimately show ?thesis by (rule order_trans [rotated])
  qed
  then have "1 \<le> x / ulp x" by (simp add: k(1))
  then have "1 \<le> rne (x / ulp x)" using rne_ge [of 1] by simp
  then have "0 < of_int (rne (x / ulp x)) * ulp x" using ulp_pos [of x] by simp
  with x show ?thesis by (simp add: roundPos_def Let_def)
qed

lemma maxDouble_less: "maxDouble < 2 ^ 1024"
proof -
  have "(2::real) ^ 1024 = 2 ^ 53 * 2 powr 971"
    by (simp add: powr_realpow flip: power_add)
  then show ?thesis by (simp add: maxDouble_def)
qed

lemma roundPos_finite:
  assumes "0 \<le> x" and "x \<le> maxDouble"
  shows "\<exists>v. roundPos x = Fin v \<and> 0 \<le> v \<and> v \<le> maxDouble"
proof (cases "x = 0")
  case True
  then show ?thesis by (simp add: maxDouble_def)
next
  case False
  with assms have x: "0 < x" by simp
  then obtain k :: int where k: "ulp x = 2 powr of_int k" "- 1074 \<le> k"
    "x < 2 powr (of_int k + 53)" "k = - 1074 \<or> 2 powr (of_int k + 52) \<le> x"
    by (rule ulp_facts)
  let ?m = "rne (x / ulp x)"
  have m0: "0 \<le> ?m" using rne_ge [of 0 "x / ulp x"] x ulp_pos [of x] by simp
  have le: "k \<le> 971"
  proof (rule ccontr)
    assume "\<not> k \<le> 971"
    then have g: "972 \<le> k" by simp
    with k(4) have "2 powr (of_int k + 52) \<le> x" by simp
    moreover have "(2::real) powr 1024 \<le> 2 powr (of_int k + 52)"
      using g by (intro powr_mono) simp_all
    ultimately have "(2::real) powr 1024 \<le> x" by (rule order_trans [rotated])
    with assms(2) maxDouble_less show False by (simp add: powr_realpow)
  qed
  have v: "of_int ?m * ulp x \<le> maxDouble"
  proof (cases "k = 971")
    case True
    have u971: "ulp x = 2 powr 971" using k(1) True by simp
    have m: "maxDouble = (2 ^ 53 - 1) * ulp x" by (simp only: u971 maxDouble_def)
    have "x / ulp x \<le> of_int (2 ^ 53 - 1)"
      using assms(2) ulp_pos [of x] unfolding m by (simp add: field_simps)
    then have "?m \<le> 2 ^ 53 - 1" by (rule rne_le)
    then have "(of_int ?m :: real) \<le> of_int (2 ^ 53 - 1)" by (simp only: of_int_le_iff)
    then have "of_int ?m \<le> (2 ^ 53 - 1 :: real)" by simp
    then have "of_int ?m * ulp x \<le> (2 ^ 53 - 1) * ulp x"
      using ulp_pos [of x] by (intro mult_right_mono) simp_all
    then show ?thesis by (simp only: m)
  next
    case False
    with le have k970: "k \<le> 970" by simp
    have "x / ulp x < 2 ^ 53"
      using k(3) by (simp add: k(1) powr_add field_simps)
    then have "x / ulp x \<le> of_int (2 ^ 53)" by simp
    then have "?m \<le> 2 ^ 53" by (rule rne_le)
    then have "(of_int ?m :: real) \<le> of_int (2 ^ 53)" by (simp only: of_int_le_iff)
    then have "of_int ?m \<le> (2 ^ 53 :: real)" by simp
    then have "of_int ?m * ulp x \<le> 2 ^ 53 * 2 powr of_int k"
      unfolding k(1) by (intro mult_right_mono) simp_all
    also have "\<dots> \<le> 2 ^ 53 * 2 powr 970"
      using k970 by (intro mult_left_mono powr_mono) simp_all
    also have "\<dots> \<le> maxDouble"
    proof -
      have "(2::real) powr 971 = 2 * 2 powr 970"
        using powr_add [of 2 1 970] by simp
      then show ?thesis by (simp add: maxDouble_def)
    qed
    finally show ?thesis .
  qed
  have "0 \<le> of_int ?m * ulp x" using m0 ulp_pos [of x] by simp
  with v maxDouble_less x show ?thesis
    by (simp add: roundPos_def Let_def)
qed

lemma roundPos_exact:
  assumes "0 < x" and "x = of_int m * 2 powr of_int j" and "m < 2 ^ 53"
    and "- 1074 \<le> j" and "x < 2 ^ 1024"
  shows "roundPos x = Fin x"
proof -
  from assms(1) obtain k :: int where k: "ulp x = 2 powr of_int k" "- 1074 \<le> k"
    "k = - 1074 \<or> 2 powr (of_int k + 52) \<le> x"
    by (rule ulp_facts)
  have kj: "k \<le> j"
  proof (cases "k = - 1074")
    case True
    with assms(4) show ?thesis by simp
  next
    case False
    with k(3) have "2 powr (of_int k + 52) \<le> x" by simp
    also have "x < 2 ^ 53 * 2 powr of_int j"
      unfolding assms(2) using assms(3) by (intro mult_strict_right_mono) simp_all
    also have "\<dots> = 2 powr (of_int j + 53)"
      by (simp add: powr_add mult.commute)
    finally have "of_int k + 52 < (of_int j + 53 :: real)"
      by (simp only: powr_less_cancel_iff) 
    then show ?thesis by linarith
  qed
  define d where "d = nat (j - k)"
  have "(2::real) powr of_int j = 2 powr of_int k * 2 powr of_int (j - k)"
    by (simp flip: powr_add)
  also have "(2::real) powr of_int (j - k) = 2 ^ d"
    using kj by (simp add: d_def powr_realpow flip: powr_realpow [of 2 "nat (j - k)"])
  finally have jk: "(2::real) powr of_int j = 2 powr of_int k * 2 ^ d" .
  have "x / 2 powr of_int k = of_int m * 2 ^ d"
    unfolding assms(2) jk by simp
  then have "x / ulp x = of_int (m * 2 ^ d)"
    by (simp add: k(1))
  then have "of_int (rne (x / ulp x)) * ulp x = x / ulp x * ulp x"
    by (simp only: rne_of_int)
  also have "\<dots> = x" using ulp_pos [of x] by simp
  finally show ?thesis using assms(1,5) by (simp add: roundPos_def Let_def)
qed

lemma fl_zero [simp]: "fl 0 = Fin 0"
  by (simp add: fl_def)

lemma fl_nonneg: "0 \<le> x \<Longrightarrow> dle (Fin 0) (fl x)"
  using roundPos_nonneg [of x] by (auto simp: fl_def)

lemma fl_nonpos: "x \<le> 0 \<Longrightarrow> dle (fl x) (Fin 0)"
  using roundPos_nonneg [of "- x"] by (cases "x = 0") (auto simp: fl_def)

lemma fl_pos: "2 powr (- 1074) \<le> x \<Longrightarrow> dless (Fin 0) (fl x)"
proof -
  assume a: "2 powr (- 1074) \<le> x"
  have "(0::real) < 2 powr (- 1074)" by simp
  then have "0 < x" using a by (rule less_le_trans)
  with roundPos_pos [OF a] show ?thesis by (auto simp: fl_def)
qed

lemma fl_finite:
  "0 \<le> x \<Longrightarrow> x \<le> maxDouble \<Longrightarrow> \<exists>v. fl x = Fin v \<and> 0 \<le> v \<and> v \<le> maxDouble"
  using roundPos_finite [of x] by (simp add: fl_def)

lemma fl_numeral [simp]:
  "numeral n < (2::int) ^ 53 \<Longrightarrow> fl (numeral n) = Fin (numeral n)"
proof -
  assume a: "numeral n < (2::int) ^ 53"
  have "(numeral n :: real) = of_int (numeral n)" by simp
  also have "\<dots> < of_int (2 ^ 53)" using a by (simp only: of_int_less_iff)
  finally have "(numeral n :: real) < 2 ^ 1024"
    by (rule less_trans) simp
  then have "roundPos (numeral n) = Fin (numeral n)"
    using a by (intro roundPos_exact [where m = "numeral n" and j = 0]) simp_all
  then show ?thesis by (simp add: fl_def)
qed

lemma fl_neg_numeral [simp]:
  "numeral n < (2::int) ^ 53 \<Longrightarrow> fl (- numeral n) = Fin (- numeral n)"
  using fl_numeral [of n] by (simp add: fl_def)

lemma fl_one [simp]: "fl 1 = Fin 1"
  using roundPos_exact [of 1 1 0] by (simp add: fl_def)




lemma dsub_Fin [simp]: "dsub (Fin a) (Fin b) = fl (a - b)"
  by (simp add: dsub_def)

lemma isDouble_of_int:
  assumes "0 \<le> i" and "i < 2 ^ 53"
  shows "isDouble (of_int i)"
proof -
  have "(2::real) powr 1074 * 2 powr (- 1074) = 1"
    by (simp only: powr_minus) simp
  then have e: "(of_int i :: real) = of_int (i * 2 ^ 1074) * 2 powr (- 1074)"
    by (simp add: powr_realpow mult.assoc flip: powr_realpow [of 2 1074])
  from assms(2) have "i \<le> 2 ^ 53 - 1" by linarith
  then have "(of_int i :: real) \<le> of_int (2 ^ 53 - 1)" by (simp only: of_int_le_iff)
  then have "(of_int i :: real) \<le> (2 ^ 53 - 1) * 1" by simp
  also have "\<dots> \<le> (2 ^ 53 - 1) * 2 powr 971"
    by (intro mult_left_mono) (simp_all add: ge_one_powr_ge_zero)
  finally have "\<bar>of_int i :: real\<bar> \<le> maxDouble" using assms(1) by (simp add: maxDouble_def)
  with e show ?thesis unfolding isDouble_def by blast
qed

lemma isDouble_numeral: "numeral n < (2::int) ^ 53 \<Longrightarrow> isDouble (numeral n)"
  using isDouble_of_int [of "numeral n"] by simp

lemma isDouble_diff:
  assumes "isDouble a" and "isDouble b" and "b < a"
  shows "2 powr (- 1074) \<le> a - b"
proof -
  from assms(1,2) obtain i j :: int where a: "a = of_int i * 2 powr (- 1074)"
    and b: "b = of_int j * 2 powr (- 1074)"
    unfolding isDouble_def by blast
  have "of_int j * 2 powr (- 1074) < of_int i * (2 powr (- 1074) :: real)"
    using assms(3) a b by simp
  then have "(of_int j :: real) < of_int i" by (simp only: mult_less_cancel_right_pos powr_gt_zero)
  then have "j + 1 \<le> i" by simp
  then have "(of_int (j + 1) :: real) \<le> of_int i" by (simp only: of_int_le_iff)
  then have "1 \<le> (of_int i - of_int j :: real)" by simp
  then have "1 * 2 powr (- 1074) \<le> (of_int i - of_int j) * (2 powr (- 1074) :: real)"
    by (intro mult_right_mono) simp_all
  then show ?thesis by (simp add: a b algebra_simps)
qed

lemma dsub_pos:
  assumes "isDouble a" and "isDouble b" and "0 \<le> b" and "b < a"
  shows "\<exists>n. dsub (Fin a) (Fin b) = Fin n \<and> 0 < n"
proof -
  have "a \<le> maxDouble" using assms(1) by (auto simp: isDouble_def)
  then have "a - b \<le> maxDouble" using assms(3) by simp
  moreover have "0 \<le> a - b" using assms(4) by simp
  ultimately obtain v where v: "fl (a - b) = Fin v" using fl_finite by blast
  from isDouble_diff [OF assms(1,2,4)] have "dless (Fin 0) (fl (a - b))" by (rule fl_pos)
  with v show ?thesis by simp
qed

lemma dmax_nonneg: "dle (Fin 0) x \<Longrightarrow> dmax (Fin 0) x = x"
  by (cases x) (auto simp: dmax_def)

lemma dmax_nonpos: "dle x (Fin 0) \<Longrightarrow> dmax (Fin 0) x = Fin 0"
  by (cases x) (auto simp: dmax_def)

lemma dmul_pos_nonneg: "0 < n \<Longrightarrow> dle (Fin 0) w \<Longrightarrow> dle (Fin 0) (dmul (Fin n) w)"
  by (cases w) (auto intro: fl_nonneg)

lemma dmul_pos_nonpos: "0 < n \<Longrightarrow> dle w (Fin 0) \<Longrightarrow> dle (dmul (Fin n) w) (Fin 0)"
  by (cases w) (auto intro: fl_nonpos simp: mult_le_0_iff)

lemma ddiv_nonneg_pos: "0 \<le> c \<Longrightarrow> 0 < q \<Longrightarrow> dle (Fin 0) (ddiv (Fin c) (Fin q))"
  by (auto intro: fl_nonneg)

lemma ddiv_nonpos_pos: "c \<le> 0 \<Longrightarrow> 0 < q \<Longrightarrow> dle (ddiv (Fin c) (Fin q)) (Fin 0)"
  by (auto intro: fl_nonpos simp: divide_le_0_iff)

lemma dmax_eq_Fin_pos:
  assumes "dmax (Fin 0) x = Fin q" and "0 < q"
  shows "x = Fin q"
  using assms by (cases x) (auto simp: dmax_def split: if_splits)

lemma dmul_pos_pos: "dless (Fin 0) a \<Longrightarrow> dless (Fin 0) b \<Longrightarrow> dle (Fin 0) (dmul a b)"
  by (cases a; cases b) (auto intro: fl_nonneg)

lemma ddiv_nonneg_Fin: "dle (Fin 0) x \<Longrightarrow> 0 < d \<Longrightarrow> dle (Fin 0) (ddiv x (Fin d))"
  by (cases x) (auto intro: fl_nonneg)

lemma dmul_nonneg_Fin: "dle (Fin 0) x \<Longrightarrow> 0 < s \<Longrightarrow> dle (Fin 0) (dmul x (Fin s))"
  by (cases x) (auto intro: fl_nonneg)

lemma dsub_gap_pos:
  assumes "dless (Fin t) a" and "isBinary64 a" and "isDouble t"
  shows "dless (Fin 0) (dsub a (Fin t))"
proof (cases a)
  case (Fin x)
  with assms have "t < x" "isDouble x" by (simp_all add: isBinary64_def)
  with assms(3) have "2 powr (- 1074) \<le> x - t" by (intro isDouble_diff)
  then show ?thesis unfolding Fin by (simp add: fl_pos)
qed (use assms in \<open>simp_all add: dsub_def\<close>)

subsection \<open>Roundings at the numbers of the examples\<close>

text \<open>
  Each is checked by the binade of the number and the integer nearest to its quotient by
  the \<open>ulp\<close>. \<open>3602879701896397 / 2^55\<close> is the binary64 value of 0.1,
  \<open>2818268204315443 / 2^45\<close> that of 80.1, \<open>3514918771674317 / 2^45\<close> that of 99.9 and
  \<open>1 / 2^1074\<close> the least positive value (5e-324).
\<close>

lemma r_tenth_times_10: "fl (3602879701896397 / 2 ^ 55 * 10) = Fin (1)"
proof -
  have "roundPos (3602879701896397 / 2 ^ 55 * 10) = Fin (1)"
    by (rule roundPos_eval [where k = "-52" and m = 4503599627370496])
       (simp_all add: rne_def powr_minus)
  then show ?thesis by (simp add: fl_def)
qed

lemma r_one_tenth: "fl (1 / 10) = Fin (3602879701896397 / 2 ^ 55)"
proof -
  have "roundPos (1 / 10) = Fin (3602879701896397 / 2 ^ 55)"
    by (rule roundPos_eval [where k = "-56" and m = 7205759403792794])
       (simp_all add: rne_def powr_minus)
  then show ?thesis by (simp add: fl_def)
qed

lemma r_three_tenths: "fl (3 * (3602879701896397 / 2 ^ 55)) = Fin (1351079888211149 / 2 ^ 52)"
proof -
  have "roundPos (3 * (3602879701896397 / 2 ^ 55)) = Fin (1351079888211149 / 2 ^ 52)"
    by (rule roundPos_eval [where k = "-54" and m = 5404319552844596])
       (simp_all add: rne_def powr_minus)
  then show ?thesis by (simp add: fl_def)
qed

lemma r_new_average: "fl (1351079888211149 / 2 ^ 52 / 3) = Fin (7205759403792795 / 2 ^ 56)"
proof -
  have "roundPos (1351079888211149 / 2 ^ 52 / 3) = Fin (7205759403792795 / 2 ^ 56)"
    by (rule roundPos_eval [where k = "-56" and m = 7205759403792795])
       (simp_all add: rne_def powr_minus)
  then show ?thesis by (simp add: fl_def)
qed









lemma r_min: "fl (1 / 2 ^ 1074) = Fin (1 / 2 ^ 1074)"
proof -
  have "roundPos (1 / 2 ^ 1074) = Fin (1 / 2 ^ 1074)"
    by (rule roundPos_eval [where k = "-1074" and m = 1])
       (simp_all add: rne_def powr_minus)
  then show ?thesis by (simp add: fl_def)
qed

lemma r_min_minus_100: "fl (1 / 2 ^ 1074 - 100) = Fin (- (100))"
proof -
  have "roundPos (- (1 / 2 ^ 1074 - 100)) = Fin (100)"
    by (rule roundPos_eval [where k = "-46" and m = 7036874417766400])
       (simp_all add: rne_def powr_minus)
  then show ?thesis by (simp add: fl_def)
qed

lemma r_999_minus_min: "fl (3514918771674317 / 2 ^ 45 - 1 / 2 ^ 1074) = Fin (3514918771674317 / 2 ^ 45)"
proof -
  have "roundPos (3514918771674317 / 2 ^ 45 - 1 / 2 ^ 1074) = Fin (3514918771674317 / 2 ^ 45)"
    by (rule roundPos_eval [where k = "-46" and m = 7029837543348634])
       (simp_all add: rne_def powr_minus)
  then show ?thesis by (simp add: fl_def)
qed

lemma r_100_minus_999: "fl (100 - 3514918771674317 / 2 ^ 45) = Fin (3518437208883 / 2 ^ 45)"
proof -
  have "roundPos (100 - 3514918771674317 / 2 ^ 45) = Fin (3518437208883 / 2 ^ 45)"
    by (rule roundPos_eval [where k = "-56" and m = 7205759403792384])
       (simp_all add: rne_def powr_minus)
  then show ?thesis by (simp add: fl_def)
qed

lemma r_999_gap: "fl (3518437208883 / 2 ^ 45) = Fin (3518437208883 / 2 ^ 45)"
proof -
  have "roundPos (3518437208883 / 2 ^ 45) = Fin (3518437208883 / 2 ^ 45)"
    by (rule roundPos_eval [where k = "-56" and m = 7205759403792384])
       (simp_all add: rne_def powr_minus)
  then show ?thesis by (simp add: fl_def)
qed

lemma r_rq_min: "fl (3518437208883 / 2 ^ 45 / (3514918771674317 / 2 ^ 45)) = Fin (4616302320747873 / 2 ^ 62)"
proof -
  have "roundPos (3518437208883 / 2 ^ 45 / (3514918771674317 / 2 ^ 45)) = Fin (4616302320747873 / 2 ^ 62)"
    by (rule roundPos_eval [where k = "-62" and m = 4616302320747873])
       (simp_all add: rne_def powr_minus)
  then show ?thesis by (simp add: fl_def)
qed

lemma r_rc_min: "fl (4616302320747873 / 2 ^ 62 * (1 / 2 ^ 1074)) = Fin (0)"
proof -
  have "roundPos (4616302320747873 / 2 ^ 62 * (1 / 2 ^ 1074)) = Fin (0)"
    by (rule roundPos_eval [where k = "-1074" and m = 0])
       (simp_all add: rne_def powr_minus)
  then show ?thesis by (simp add: fl_def)
qed

lemma r_five_halves: "fl (5 / 2) = Fin (5 / 2 ^ 1)"
proof -
  have "roundPos (5 / 2) = Fin (5 / 2 ^ 1)"
    by (rule roundPos_eval [where k = "-51" and m = 5629499534213120])
       (simp_all add: rne_def powr_minus)
  then show ?thesis by (simp add: fl_def)
qed

section \<open>Properties of the position aggregator in binary64\<close>

lemma summaryLoop64_append:
  "summaryLoop64 s (xs @ ys) = summaryLoop64 (summaryLoop64 s xs) ys"
  by (induction xs arbitrary: s) simp_all

lemma summary64_eq:
  "summary64 txs =
    (if filter active txs = [] then
       \<lparr>totalQuantity64 = Fin 0, totalCost64 = Fin 0, averageCost64 = Fin 0\<rparr>
     else
      (case summaryLoop64 (Fin 0, Fin 0) (filter active txs) of (lq, lc) \<Rightarrow>
       \<lparr>totalQuantity64 = dmax (Fin 0) lq, totalCost64 = dmax (Fin 0) lc,
        averageCost64 = (if dless (Fin 0) (dmax (Fin 0) lq)
                         then ddiv (dmax (Fin 0) lc) (dmax (Fin 0) lq) else Fin 0)\<rparr>))"
  by (simp add: summary64_def Let_def split: prod.splits)




text \<open>
  The sequence SELL 5 at 10, BUY 10 at 100 gives in binary64 what it gives in exact
  arithmetic: its numbers are small integers.
\<close>

lemma summary64_oversell_example:
  "summary64 [exampleTx SELL 5 10 (Some True), exampleTx BUY 10 100 (Some True)] =
     \<lparr>totalQuantity64 = Fin 5, totalCost64 = Fin 950, averageCost64 = Fin 190\<rparr>"
  by (simp add: summary64_def summaryStep64_def dmax_def Let_def example_simps)

text \<open>
  C7 as stated fails: a sale changes the average by rounding. After the active BUY of 10
  units at 0.1 the position is \<open>qty = 10, cost = 1, avg = 0.1\<close>; the active SELL of 7 units
  leaves \<open>qty = 3\<close>, the cost \<open>3 * 0.1\<close> rounded to 0.30000000000000004 and the average
  \<open>cost / 3\<close> rounded to 0.10000000000000002.
\<close>

theorem sale_changes_average_counterexample:
  "summary64 [exampleTx BUY 10 (3602879701896397 / 2 ^ 55) (Some True)] =
     \<lparr>totalQuantity64 = Fin 10, totalCost64 = Fin 1,
      averageCost64 = Fin (3602879701896397 / 2 ^ 55)\<rparr> \<and>
   summary64 [exampleTx BUY 10 (3602879701896397 / 2 ^ 55) (Some True),
              exampleTx SELL 7 1 (Some True)] =
     \<lparr>totalQuantity64 = Fin 3, totalCost64 = Fin (1351079888211149 / 2 ^ 52),
      averageCost64 = Fin (7205759403792795 / 2 ^ 56)\<rparr> \<and>
   (7205759403792795 / 2 ^ 56 :: real) \<noteq> 3602879701896397 / 2 ^ 55"
  using r_tenth_times_10 r_one_tenth r_three_tenths r_new_average
  by (simp add: summary64_def summaryStep64_def dmax_def Let_def example_simps)

text \<open>The cost after a sale, clamped, is the remaining quantity times the clamped average.\<close>

lemma sale_cost:
  assumes "0 < n" and "0 < q"
  shows "dmax (Fin 0) (dmul (Fin n) (ddiv lc (Fin q))) =
         dmul (Fin n) (ddiv (dmax (Fin 0) lc) (Fin q))"
proof (cases lc)
  case NaN
  then show ?thesis by (simp add: dmax_def)
next
  case PosInf
  with assms show ?thesis by (simp add: dmax_def)
next
  case NegInf
  with assms show ?thesis by (simp add: dmax_def)
next
  case (Fin c)
  show ?thesis
  proof (cases "0 \<le> c")
    case True
    then have m: "dmax (Fin 0) lc = lc" unfolding Fin by (intro dmax_nonneg) simp
    have "dle (Fin 0) (dmul (Fin n) (ddiv lc (Fin q)))"
      unfolding Fin using assms True by (intro dmul_pos_nonneg ddiv_nonneg_pos)
    then show ?thesis unfolding m by (rule dmax_nonneg)
  next
    case False
    then have m: "dmax (Fin 0) lc = Fin 0" unfolding Fin by (intro dmax_nonpos) simp
    have "dle (dmul (Fin n) (ddiv lc (Fin q))) (Fin 0)"
      unfolding Fin using assms False by (intro dmul_pos_nonpos ddiv_nonpos_pos) simp_all
    then have "dmax (Fin 0) (dmul (Fin n) (ddiv lc (Fin q))) = Fin 0" by (rule dmax_nonpos)
    then show ?thesis unfolding m using assms by simp
  qed
qed


text \<open>
  C7, amended. When the aggregator has reached a position with quantity \<open>qty > 0\<close> and
  average \<open>avg\<close>, appending an active SELL of \<open>q\<close> units with \<open>0 < q < qty\<close>, at any price,
  gives the position with quantity \<open>qty - q\<close> (positive), cost \<open>(qty - q) * avg\<close> and average
  that cost divided by \<open>qty - q\<close>, each operation in binary64. The average is still \<open>avg\<close>
  when the product \<open>(qty - q) * avg\<close> is exact; otherwise it can differ from \<open>avg\<close> by
  rounding. From \<open>qty = 10, avg = 100\<close>, selling 4 units gives \<open>qty = 6, cost = 600,
  avg = 100\<close>.
\<close>

theorem sale_average_binary64:
  assumes "summary64 txs =
      \<lparr>totalQuantity64 = Fin qty, totalCost64 = cost, averageCost64 = avg\<rparr>"
    and "active t" and "type t = SELL"
    and "0 < quantity t" and "quantity t < qty"
    and "isDouble qty" and "isDouble (quantity t)"
  shows "summary64 (txs @ [t]) =
      \<lparr>totalQuantity64 = dsub (Fin qty) (Fin (quantity t)),
       totalCost64 = dmul (dsub (Fin qty) (Fin (quantity t))) avg,
       averageCost64 = ddiv (dmul (dsub (Fin qty) (Fin (quantity t))) avg)
                            (dsub (Fin qty) (Fin (quantity t)))\<rparr> \<and>
    dless (Fin 0) (dsub (Fin qty) (Fin (quantity t))) \<and>
    (avg = Fin a \<and> fl a = Fin a \<and> dsub (Fin qty) (Fin (quantity t)) = Fin n \<and>
     dmul (Fin n) (Fin a) = Fin (n * a)
       \<longrightarrow> averageCost64 (summary64 (txs @ [t])) = avg)"
proof -
  have q: "0 < qty" using assms(4,5) by simp
  have ne: "filter active txs \<noteq> []"
    using assms(1) q by (auto simp: summary64_eq)
  obtain lq lc where l: "summaryLoop64 (Fin 0, Fin 0) (filter active txs) = (lq, lc)"
    by (cases "summaryLoop64 (Fin 0, Fin 0) (filter active txs)")
  from assms(1) ne l have "dmax (Fin 0) lq = Fin qty"
    by (simp add: summary64_eq)
  then have lq: "lq = Fin qty" using q by (rule dmax_eq_Fin_pos)
  have mq: "dmax (Fin 0) (Fin qty) = Fin qty" using q by (simp add: dmax_def)
  from assms(1) ne l lq q have avg: "avg = ddiv (dmax (Fin 0) lc) (Fin qty)"
    by (auto simp: summary64_eq mq)
  obtain m where m: "dsub (Fin qty) (Fin (quantity t)) = Fin m" "0 < m"
    using dsub_pos [OF assms(6,7) _ assms(5)] assms(4) by auto
  have step: "summaryLoop64 (Fin 0, Fin 0) (filter active (txs @ [t])) =
      (Fin m, dmul (Fin m) (ddiv lc (Fin qty)))"
    using assms(2,3) l lq q m(1)
    by (simp add: summaryLoop64_append summaryStep64_def Let_def del: dsub_Fin)
  have mm: "dmax (Fin 0) (Fin m) = Fin m" using m(2) by (simp add: dmax_def)
  have s: "summary64 (txs @ [t]) =
      \<lparr>totalQuantity64 = Fin m, totalCost64 = dmul (Fin m) avg,
       averageCost64 = ddiv (dmul (Fin m) avg) (Fin m)\<rparr>"
    unfolding summary64_eq step avg using assms(2) m(2) q
    by (simp add: mm sale_cost)
  have e: "averageCost64 (summary64 (txs @ [t])) = avg"
    if "avg = Fin a" "fl a = Fin a" "dsub (Fin qty) (Fin (quantity t)) = Fin n"
       "dmul (Fin n) (Fin a) = Fin (n * a)"
  proof -
    from that(3) m have n: "n = m" by simp
    have "ddiv (dmul (Fin m) avg) (Fin m) = ddiv (Fin (m * a)) (Fin m)"
      using that(1,4) n by simp
    also have "\<dots> = fl a" using m(2) by simp
    finally show ?thesis using that(1,2) by (simp add: s)
  qed
  show ?thesis
    unfolding m(1) using s m(2) e m(1) by auto
qed

theorem sale_average_binary64_witness:
  "summary64 [exampleTx BUY 10 100 (Some True)] = examplePosition64 \<and>
   summary64 ([exampleTx BUY 10 100 (Some True)] @ [exampleTx SELL 4 150 (Some True)]) =
     \<lparr>totalQuantity64 = Fin 6, totalCost64 = Fin 600, averageCost64 = Fin 100\<rparr>"
proof -
  have s: "summary64 [exampleTx BUY 10 100 (Some True)] =
      \<lparr>totalQuantity64 = Fin 10, totalCost64 = Fin 1000, averageCost64 = Fin 100\<rparr>"
    by (simp add: summary64_def summaryStep64_def dmax_def Let_def example_simps)
  have t: "active (exampleTx SELL 4 150 (Some True))" "type (exampleTx SELL 4 150 (Some True)) = SELL"
    "0 < quantity (exampleTx SELL 4 150 (Some True))" "quantity (exampleTx SELL 4 150 (Some True)) < 10"
    "isDouble 10" "isDouble (quantity (exampleTx SELL 4 150 (Some True)))"
    by (simp_all add: example_simps isDouble_numeral)
  show ?thesis
    using sale_average_binary64 [OF s t, of 100 6] s
    by (simp add: examplePosition64_def exampleTx_def)
qed

section \<open>Properties of the cost-averaging solver in binary64\<close>




text \<open>
  C10 as stated fails in its strict signs: a product of positive numbers can underflow
  to 0. For the position \<open>qty = 1, cost = 100, avg = 100\<close>, the simulated price
  \<open>2^-1074\<close> and the target 99.9 every precondition holds, and the solver returns the
  required capital 0.
\<close>

theorem costAveraging64_underflow_counterexample:
  "costAveragingData64 (Some (1 / 2 ^ 1074)) (Some (3514918771674317 / 2 ^ 45))
      \<lparr>totalQuantity64 = Fin 1, totalCost64 = Fin 100, averageCost64 = Fin 100\<rparr> =
     Some (Solved64 (Fin (4616302320747873 / 2 ^ 62)) (Fin 0)) \<and>
   (0::real) < 1 / 2 ^ 1074 \<and> (1 / 2 ^ 1074 :: real) < 3514918771674317 / 2 ^ 45 \<and>
   (3514918771674317 / 2 ^ 45 :: real) < 100 \<and> \<not> dless (Fin 0) (Fin 0)"
  using r_min r_min_minus_100 r_999_minus_min r_100_minus_999 r_999_gap r_rq_min r_rc_min
  by (simp add: costAveragingData64_def simulation64_def Let_def)

text \<open>
  C10, amended. When the solver returns a solve for a position with positive quantity
  and \<open>0 < simPrice < targetAvg < averageCost\<close>, the divisor \<open>targetAvg - simPrice\<close> is
  strictly positive, and the required quantity and the required capital are \<open>\<ge> 0\<close>:
  never negative and never NaN (they are 0 only by underflow, and can be infinite by
  overflow).
\<close>

theorem costAveraging64_nonnegative:
  assumes "costAveragingData64 (Some simPrice) (Some targetAvg) summ = Some (Solved64 rq rc)"
    and "dless (Fin 0) (totalQuantity64 summ)" and "0 < simPrice" and "simPrice < targetAvg"
    and "dless (Fin targetAvg) (averageCost64 summ)"
    and "isDouble simPrice" and "isDouble targetAvg" and "isBinary64 (averageCost64 summ)"
  shows "dless (Fin 0) (dsub (Fin targetAvg) (Fin simPrice)) \<and>
         dle (Fin 0) rq \<and> dle (Fin 0) rc"
proof -
  from assms(1) have
    rq: "rq = ddiv (dmul (totalQuantity64 summ) (dsub (averageCost64 summ) (Fin targetAvg)))
                   (dsub (Fin targetAvg) (Fin simPrice))"
    and rc: "rc = dmul rq (Fin simPrice)"
    by (auto simp: costAveragingData64_def simulation64_def Let_def simp del: dsub_Fin
             split: if_splits)
  obtain d where d: "dsub (Fin targetAvg) (Fin simPrice) = Fin d" "0 < d"
    using dsub_pos [OF assms(7,6) _ assms(4)] assms(3) by auto
  have "dless (Fin 0) (dsub (averageCost64 summ) (Fin targetAvg))"
    using assms(5,8,7) by (rule dsub_gap_pos)
  with assms(2) have "dle (Fin 0) (dmul (totalQuantity64 summ)
      (dsub (averageCost64 summ) (Fin targetAvg)))"
    by (rule dmul_pos_pos)
  then have q: "dle (Fin 0) rq" unfolding rq d(1) using d(2) by (rule ddiv_nonneg_Fin)
  then have "dle (Fin 0) rc" unfolding rc using assms(3) by (rule dmul_nonneg_Fin)
  with q d show ?thesis by simp
qed

theorem costAveraging64_nonnegative_witness:
  "costAveragingData64 (Some 50) (Some 90) examplePosition64 =
     Some (Solved64 (Fin (5 / 2)) (Fin 125)) \<and>
   dless (Fin 0) (dsub (Fin 90) (Fin 50)) \<and> dle (Fin 0) (Fin (5 / 2)) \<and> dle (Fin 0) (Fin 125)"
proof -
  have r: "costAveragingData64 (Some 50) (Some 90) examplePosition64 =
     Some (Solved64 (Fin (5 / 2)) (Fin 125))"
    using r_five_halves
    by (simp add: costAveragingData64_def simulation64_def examplePosition64_def Let_def)
  have h: "dless (Fin 0) (totalQuantity64 examplePosition64)" "(0::real) < 50" "(50::real) < 90"
    "dless (Fin 90) (averageCost64 examplePosition64)"
    "isDouble 50" "isDouble 90" "isBinary64 (averageCost64 examplePosition64)"
    by (simp_all add: examplePosition64_def isBinary64_def isDouble_numeral)
  from costAveraging64_nonnegative [OF r h] r show ?thesis by simp
qed

end
